theory Spec2Isabelle
  imports Complex_Main "HOL-Library.Sublist" "HOL-Library.Char_ord"
begin

section \<open>The blog loader of src/lib/mdx.ts\<close>

text \<open>
  The module reads a directory of \<^verbatim>\<open>.mdx\<close> files, validates the frontmatter of each
  file with two zod schemas, derives an id and a slug from the file name and the title,
  and sorts the posts by id. The functions of the module are embedded below under their
  own names. What the module takes from outside is modelled as follows.
  \<^item> Strings are \<^typ>\<open>string\<close>; a character stands for the code unit of the same
    number, so the strings of the model are those over ASCII and the Latin-1 supplement
    (code units 0 to 255). Strings with a code unit from 256 on are outside the model.
  \<^item> The file system is a finite map from paths to files and directories.
  \<^item> The MDX compiler and the coercion of a string to a number are parameters of the
    functions that call them.
  \<^item> The zod combinators the schemas are built from are written out for the three
    schema kinds the module uses (string, optional, object); an issue keeps its path
    and its message.
\<close>

subsection \<open>Strings\<close>

definition fileExtension :: string where
  "fileExtension = ''.mdx''"

text \<open>
  \<^verbatim>\<open>toLowerCase\<close> on a code unit below 256: the capitals are \<^verbatim>\<open>A\<close> to \<^verbatim>\<open>Z\<close> and
  U+00C0 to U+00DE without the multiplication sign U+00D7; each has its small letter 32
  places up. Every other code unit below 256 is left alone, and no code unit below 256
  has a lowercase form of more than one code unit or one that depends on its neighbours.
\<close>

definition isCapital :: "char \<Rightarrow> bool" where
  "isCapital c =
     ((CHR ''A'' \<le> c \<and> c \<le> CHR ''Z'')
      \<or> (CHR 0xC0 \<le> c \<and> c \<le> CHR 0xDE \<and> c \<noteq> CHR 0xD7))"

definition toLowerChar :: "char \<Rightarrow> char" where
  "toLowerChar c = (if isCapital c then char_of (of_char c + (32::nat)) else c)"

definition toLowerCase :: "string \<Rightarrow> string" where
  "toLowerCase s = map toLowerChar s"

text \<open>
  \<^verbatim>\<open>s.replace(pat, rep)\<close> with a string pattern: the first occurrence of \<open>pat\<close> in
  \<open>s\<close>, wherever it is, is replaced; without an occurrence \<open>s\<close> is returned. The
  replacement strings of the module hold no \<^verbatim>\<open>$\<close>, so they are taken literally.
\<close>

fun replaceFirst :: "string \<Rightarrow> string \<Rightarrow> string \<Rightarrow> string" where
  "replaceFirst pat rep [] = (if pat = [] then rep else [])"
| "replaceFirst pat rep (c # cs) =
     (if prefix pat (c # cs) then rep @ drop (length pat) (c # cs)
      else c # replaceFirst pat rep cs)"

text \<open>
  \<^verbatim>\<open>s.replace(/[C]+/g, rep)\<close> for a character class \<open>C\<close>: the scan goes left to right,
  the greedy \<^verbatim>\<open>+\<close> takes all the characters of the class that follow, the match is
  replaced and the scan goes on behind it.
\<close>

function replaceRuns :: "(char \<Rightarrow> bool) \<Rightarrow> string \<Rightarrow> string \<Rightarrow> string" where
  "replaceRuns cls rep [] = []"
| "replaceRuns cls rep (c # cs) =
     (if cls c then rep @ replaceRuns cls rep (dropWhile cls cs)
      else c # replaceRuns cls rep cs)"
  by pat_completeness auto
termination
  by (relation "measure (\<lambda>(cls, rep, s). length s)")
     (auto simp: length_dropWhile_le less_Suc_eq_le)

text \<open>The class \<^verbatim>\<open>[^a-z0-9]\<close>.\<close>

definition notLowerAlnum :: "char \<Rightarrow> bool" where
  "notLowerAlnum c =
     (\<not> ((CHR ''a'' \<le> c \<and> c \<le> CHR ''z'') \<or> (CHR ''0'' \<le> c \<and> c \<le> CHR ''9'')))"

text \<open>
  \<^verbatim>\<open>slug.match(/^[^-]*/)\<close>: the match array, or nothing (\<^verbatim>\<open>null\<close>). The pattern is
  anchored at the start and may match the empty string.
\<close>

definition matchLeadingNonHyphens :: "string \<Rightarrow> string list option" where
  "matchLeadingNonHyphens slug = Some [takeWhile (\<lambda>c. c \<noteq> CHR ''-'') slug]"

subsection \<open>Values and numbers of the language\<close>

text \<open>
  A number is a double: not-a-number, an infinity, or a finite value, which is a
  rational. The subtraction below is exact where the language rounds; rounding the
  difference of two finite doubles never changes its sign, and the sign is all that
  sorting reads.
\<close>

datatype number = NaN | NegInfinity | Finite rat | PosInfinity

fun js_minus :: "number \<Rightarrow> number \<Rightarrow> number" where
  "js_minus NaN b = NaN"
| "js_minus a NaN = NaN"
| "js_minus PosInfinity PosInfinity = NaN"
| "js_minus NegInfinity NegInfinity = NaN"
| "js_minus PosInfinity b = PosInfinity"
| "js_minus NegInfinity b = NegInfinity"
| "js_minus (Finite a) PosInfinity = NegInfinity"
| "js_minus (Finite a) NegInfinity = PosInfinity"
| "js_minus (Finite a) (Finite b) = Finite (a - b)"

fun js_gt0 :: "number \<Rightarrow> bool" where
  "js_gt0 PosInfinity = True"
| "js_gt0 (Finite r) = (0 < r)"
| "js_gt0 NegInfinity = False"
| "js_gt0 NaN = False"

text \<open>\<^verbatim>\<open>a >= b\<close> on numbers: false as soon as one side is not-a-number.\<close>

fun js_ge :: "number \<Rightarrow> number \<Rightarrow> bool" where
  "js_ge NaN b = False"
| "js_ge a NaN = False"
| "js_ge PosInfinity b = True"
| "js_ge a NegInfinity = True"
| "js_ge (Finite a) (Finite b) = (b \<le> a)"
| "js_ge NegInfinity b = False"
| "js_ge (Finite a) PosInfinity = False"

datatype js_value =
    JUndefined
  | JNull
  | JBoolean bool
  | JNumber number
  | JString string
  | JArray "js_value list"
  | JObject "(string \<times> js_value) list"

text \<open>Reading a property: \<^verbatim>\<open>undefined\<close> when the object has no such key.\<close>

definition getProp :: "(string \<times> js_value) list \<Rightarrow> string \<Rightarrow> js_value" where
  "getProp props k = (case map_of props k of None \<Rightarrow> JUndefined | Some v \<Rightarrow> v)"

subsection \<open>Errors\<close>

record ZodIssue =
  path :: "string list"
  message :: string

datatype fs_code = ENOENT | ENOTDIR | EISDIR

datatype 'x error =
    ZodError "ZodIssue list"
  | SystemError fs_code string
  | MdxError 'x

subsection \<open>The zod combinators\<close>

fun parsedType :: "js_value \<Rightarrow> string" where
  "parsedType JUndefined = ''undefined''"
| "parsedType JNull = ''null''"
| "parsedType (JBoolean b) = ''boolean''"
| "parsedType (JNumber n) = (if n = NaN then ''nan'' else ''number'')"
| "parsedType (JString s) = ''string''"
| "parsedType (JArray vs) = ''array''"
| "parsedType (JObject props) = ''object''"

text \<open>
  The message of an \<^verbatim>\<open>invalid_type\<close> issue: the schema's \<^verbatim>\<open>required_error\<close> (or
  \<^verbatim>\<open>Required\<close>) when the value is \<^verbatim>\<open>undefined\<close>, the default message otherwise, since
  no schema of the module sets \<^verbatim>\<open>invalid_type_error\<close>.
\<close>

definition invalidTypeMessage :: "string option \<Rightarrow> string \<Rightarrow> js_value \<Rightarrow> string" where
  "invalidTypeMessage required_error expected v =
     (if v = JUndefined
      then (case required_error of Some m \<Rightarrow> m | None \<Rightarrow> ''Required'')
      else ''Expected '' @ expected @ '', received '' @ parsedType v)"

definition z_string ::
  "string option \<Rightarrow> string list \<Rightarrow> js_value \<Rightarrow> ZodIssue list + string" where
  "z_string required_error p v =
     (case v of
        JString s \<Rightarrow> Inr s
      | _ \<Rightarrow> Inl [\<lparr>path = p, message = invalidTypeMessage required_error ''string'' v\<rparr>])"

definition z_optional ::
  "(string list \<Rightarrow> js_value \<Rightarrow> ZodIssue list + 'a) \<Rightarrow>
   string list \<Rightarrow> js_value \<Rightarrow> ZodIssue list + 'a option" where
  "z_optional inner p v =
     (if v = JUndefined then Inr None
      else (case inner p v of Inl issues \<Rightarrow> Inl issues | Inr a \<Rightarrow> Inr (Some a)))"

text \<open>
  An object schema rejects what is not an object with one issue; on an object it runs
  the schema of every key of its shape, in the order of the shape, and collects the
  issues of all of them.
\<close>

definition z_object ::
  "string option \<Rightarrow> (string list \<Rightarrow> (string \<times> js_value) list \<Rightarrow> ZodIssue list + 'a) \<Rightarrow>
   string list \<Rightarrow> js_value \<Rightarrow> ZodIssue list + 'a" where
  "z_object required_error shape p v =
     (case v of
        JObject props \<Rightarrow> shape p props
      | _ \<Rightarrow> Inl [\<lparr>path = p, message = invalidTypeMessage required_error ''object'' v\<rparr>])"

definition issuesOf :: "ZodIssue list + 'a \<Rightarrow> ZodIssue list" where
  "issuesOf r = (case r of Inl issues \<Rightarrow> issues | Inr a \<Rightarrow> [])"

text \<open>\<^verbatim>\<open>schema.parse(v)\<close> throws a \<^verbatim>\<open>ZodError\<close> holding the issues.\<close>

definition parse ::
  "(string list \<Rightarrow> js_value \<Rightarrow> ZodIssue list + 'a) \<Rightarrow> js_value \<Rightarrow> 'x error + 'a" where
  "parse schema v = (case schema [] v of Inl issues \<Rightarrow> Inl (ZodError issues) | Inr a \<Rightarrow> Inr a)"

subsection \<open>The schemas\<close>

record FrontMatter =
  title :: string
  date :: string
  description :: string
  author :: string
  github :: "string option"

record PostMeta = FrontMatter +
  post_id :: string
  slug :: string

definition frontmatterShape ::
  "string list \<Rightarrow> (string \<times> js_value) list \<Rightarrow> ZodIssue list + FrontMatter" where
  "frontmatterShape p props =
     (let t = z_string (Some ''Title is required'') (p @ [''title'']) (getProp props ''title'');
          d = z_string (Some ''Date is required'') (p @ [''date'']) (getProp props ''date'');
          ds = z_string (Some ''Description is required'') (p @ [''description''])
                 (getProp props ''description'');
          a = z_string (Some ''Author is required'') (p @ [''author'']) (getProp props ''author'');
          g = z_optional (z_string None) (p @ [''github'']) (getProp props ''github'')
      in (case (t, d, ds, a, g) of
            (Inr t', Inr d', Inr ds', Inr a', Inr g') \<Rightarrow>
              Inr \<lparr>title = t', date = d', description = ds', author = a', github = g'\<rparr>
          | _ \<Rightarrow> Inl (issuesOf t @ issuesOf d @ issuesOf ds @ issuesOf a @ issuesOf g)))"

definition frontmatterSchema :: "string list \<Rightarrow> js_value \<Rightarrow> ZodIssue list + FrontMatter" where
  "frontmatterSchema = z_object (Some ''Post not found'') frontmatterShape"

text \<open>\<^verbatim>\<open>metaSchema.shape.id\<close> and \<^verbatim>\<open>metaSchema.shape.slug\<close> are plain \<^verbatim>\<open>z.string()\<close>.\<close>

definition metaSchema_shape_id :: "string list \<Rightarrow> js_value \<Rightarrow> ZodIssue list + string" where
  "metaSchema_shape_id = z_string None"

definition metaSchema_shape_slug :: "string list \<Rightarrow> js_value \<Rightarrow> ZodIssue list + string" where
  "metaSchema_shape_slug = z_string None"

text \<open>\<^verbatim>\<open>frontmatterSchema.extend({id, slug})\<close>: the two keys come after the inherited ones.\<close>

definition metaShape ::
  "string list \<Rightarrow> (string \<times> js_value) list \<Rightarrow> ZodIssue list + PostMeta" where
  "metaShape p props =
     (let fm = frontmatterShape p props;
          i = metaSchema_shape_id (p @ [''id'']) (getProp props ''id'');
          s = metaSchema_shape_slug (p @ [''slug'']) (getProp props ''slug'')
      in (case (fm, i, s) of
            (Inr fm', Inr i', Inr s') \<Rightarrow>
              Inr \<lparr>title = title fm', date = date fm', description = description fm',
                   author = author fm', github = github fm', post_id = i', slug = s'\<rparr>
          | _ \<Rightarrow> Inl (issuesOf fm @ issuesOf i @ issuesOf s)))"

definition metaSchema :: "string list \<Rightarrow> js_value \<Rightarrow> ZodIssue list + PostMeta" where
  "metaSchema = z_object (Some ''Post not found'') metaShape"

subsection \<open>Helper functions of the module\<close>

definition filenameToId :: "string \<Rightarrow> string" where
  "filenameToId filename = replaceFirst fileExtension [] (toLowerCase filename)"

definition slugify :: "string \<Rightarrow> string \<Rightarrow> string" where
  "slugify filename ttl =
     (let ident = filenameToId filename;
          slugedTitle = replaceRuns notLowerAlnum ''-'' (toLowerCase ttl)
      in ident @ ''-'' @ slugedTitle)"

text \<open>
  \<^verbatim>\<open>slug.match(/^[^-]*/)?.[0]\<close> is the first element of the match array, or
  \<^verbatim>\<open>undefined\<close> without a match; the id schema parses it.
\<close>

definition getFilename :: "string \<Rightarrow> 'x error + string" where
  "getFilename slg =
     (case parse metaSchema_shape_id
             (case matchLeadingNonHyphens slg of
                None \<Rightarrow> JUndefined
              | Some m \<Rightarrow> (case m of [] \<Rightarrow> JUndefined | m0 # ms \<Rightarrow> JString m0)) of
        Inl e \<Rightarrow> Inl e
      | Inr filename \<Rightarrow> Inr (filename @ fileExtension))"

subsection \<open>The file system and the compiler\<close>

datatype fs_node = File string | Directory "string list"

type_synonym file_system = "string \<Rightarrow> fs_node option"

definition readdirSync :: "file_system \<Rightarrow> string \<Rightarrow> 'x error + string list" where
  "readdirSync fs p =
     (case fs p of
        None \<Rightarrow> Inl (SystemError ENOENT p)
      | Some (File content) \<Rightarrow> Inl (SystemError ENOTDIR p)
      | Some (Directory names) \<Rightarrow> Inr names)"

definition readFileSync :: "file_system \<Rightarrow> string \<Rightarrow> 'x error + string" where
  "readFileSync fs p =
     (case fs p of
        None \<Rightarrow> Inl (SystemError ENOENT p)
      | Some (Directory names) \<Rightarrow> Inl (SystemError EISDIR p)
      | Some (File content) \<Rightarrow> Inr content)"

text \<open>
  \<^verbatim>\<open>join(dir, name)\<close> on a directory path and a plain name; the normalisation of
  \<^verbatim>\<open>.\<close>, \<^verbatim>\<open>..\<close> and doubled separators is left out.
\<close>

definition join :: "string \<Rightarrow> string \<Rightarrow> string" where
  "join dir name = dir @ ''/'' @ name"

text \<open>
  What \<^verbatim>\<open>compileMDX\<close> is called with and what it returns. The compiler is a
  parameter: a function from the options and the source to a failure of its own or a
  result.
\<close>

record compile_options =
  parseFrontmatter :: bool
  rehypePlugins :: "string list"
  components :: bool

record 'c CompileMDXResult =
  content :: 'c
  frontmatter :: js_value

type_synonym ('x, 'c) compiler = "compile_options \<Rightarrow> string \<Rightarrow> 'x + 'c CompileMDXResult"

subsection \<open>Sorting and joining\<close>

text \<open>
  \<^verbatim>\<open>Array.prototype.sort\<close> with a comparison function: a stable sort that puts \<open>x\<close>
  behind \<open>y\<close> when the comparison of \<open>x\<close> with \<open>y\<close> is greater than zero. A result
  that is zero, negative or not-a-number leaves the two in their order. With a
  comparison that is not consistent the language leaves the order to the
  implementation; the insertion sort below is one such implementation.
\<close>

fun insertSorted :: "('a \<Rightarrow> 'a \<Rightarrow> number) \<Rightarrow> 'a \<Rightarrow> 'a list \<Rightarrow> 'a list" where
  "insertSorted cmp x [] = [x]"
| "insertSorted cmp x (y # ys) =
     (if js_gt0 (cmp x y) then y # insertSorted cmp x ys else x # y # ys)"

fun sortArray :: "('a \<Rightarrow> 'a \<Rightarrow> number) \<Rightarrow> 'a list \<Rightarrow> 'a list" where
  "sortArray cmp [] = []"
| "sortArray cmp (x # xs) = insertSorted cmp x (sortArray cmp xs)"

text \<open>
  \<^verbatim>\<open>Promise.all\<close>: the values of all the tasks, in the order of the tasks, or the
  failure of a task that failed. When several fail, the language reports the one that
  settles first; here it is the first in the order of the tasks.
\<close>

fun Promise_all :: "('e + 'a) list \<Rightarrow> 'e + 'a list" where
  "Promise_all [] = Inr []"
| "Promise_all (r # rs) =
     (case r of
        Inl e \<Rightarrow> Inl e
      | Inr a \<Rightarrow> (case Promise_all rs of Inl e \<Rightarrow> Inl e | Inr as \<Rightarrow> Inr (a # as)))"

subsection \<open>The exported functions\<close>

text \<open>The body of the callback that \<^verbatim>\<open>getPosts\<close> maps over the file names.\<close>

definition getPosts_file ::
  "('x, 'c) compiler \<Rightarrow> file_system \<Rightarrow> string \<Rightarrow> string \<Rightarrow> 'x error + PostMeta" where
  "getPosts_file compileMDX fs blogDir filename =
     (case readFileSync fs (join blogDir filename) of
        Inl e \<Rightarrow> Inl e
      | Inr source \<Rightarrow>
         (case compileMDX \<lparr>parseFrontmatter = True, rehypePlugins = [], components = False\<rparr>
                 source of
            Inl x \<Rightarrow> Inl (MdxError x)
          | Inr compiled \<Rightarrow>
             (case parse frontmatterSchema (frontmatter compiled) of
                Inl e \<Rightarrow> Inl e
              | Inr fm \<Rightarrow>
                 parse metaSchema
                   (JObject
                     [(''title'', JString (title fm)),
                      (''date'', JString (date fm)),
                      (''description'', JString (description fm)),
                      (''author'', JString (author fm)),
                      (''github'', (case github fm of None \<Rightarrow> JUndefined | Some g \<Rightarrow> JString g)),
                      (''id'', JString (filenameToId filename)),
                      (''slug'', JString (slugify filename (title fm)))]))))"

text \<open>
  \<^verbatim>\<open>+b.id - +a.id\<close>: the unary plus on a string is the coercion \<open>toNumber\<close>, a
  parameter.
\<close>

definition compareIds :: "(string \<Rightarrow> number) \<Rightarrow> PostMeta \<Rightarrow> PostMeta \<Rightarrow> number" where
  "compareIds toNumber a b = js_minus (toNumber (post_id b)) (toNumber (post_id a))"

definition getPosts ::
  "(string \<Rightarrow> number) \<Rightarrow> ('x, 'c) compiler \<Rightarrow> file_system \<Rightarrow> string \<Rightarrow>
   'x error + PostMeta list" where
  "getPosts toNumber compileMDX fs blogDir =
     (case readdirSync fs blogDir of
        Inl e \<Rightarrow> Inl e
      | Inr files \<Rightarrow>
         (case Promise_all (map (getPosts_file compileMDX fs blogDir) files) of
            Inl e \<Rightarrow> Inl e
          | Inr posts \<Rightarrow> Inr (sortArray (compareIds toNumber) posts)))"

definition getPost ::
  "('x, 'c) compiler \<Rightarrow> file_system \<Rightarrow> string \<Rightarrow> string \<Rightarrow> 'x error + 'c CompileMDXResult" where
  "getPost compileMDX fs blogDir slg =
     (case getFilename slg of
        Inl e \<Rightarrow> Inl e
      | Inr filename \<Rightarrow>
         (case readFileSync fs (join blogDir filename) of
            Inl e \<Rightarrow> Inl e
          | Inr source \<Rightarrow>
             (case compileMDX
                     \<lparr>parseFrontmatter = True, rehypePlugins = [''rehypeSlug''],
                      components = True\<rparr> source of
                Inl x \<Rightarrow> Inl (MdxError x)
              | Inr compiled \<Rightarrow> Inr compiled)))"

subsection \<open>The slug transformation in the words of the specification\<close>

text \<open>
  The maximal runs of a string with respect to a class: the string cut into blocks of
  characters that are all inside or all outside the class, each block as long as it can
  be, tagged with the side it is on.
\<close>

function maximalRuns :: "(char \<Rightarrow> bool) \<Rightarrow> string \<Rightarrow> (bool \<times> string) list" where
  "maximalRuns cls [] = []"
| "maximalRuns cls (c # cs) =
     (cls c, c # takeWhile (\<lambda>d. cls d = cls c) cs)
       # maximalRuns cls (dropWhile (\<lambda>d. cls d = cls c) cs)"
  by pat_completeness auto
termination
  by (relation "measure (\<lambda>(cls, s). length s)")
     (auto simp: length_dropWhile_le less_Suc_eq_le)

text \<open>
  The title lowercased, with every maximal run of characters outside
  \<^verbatim>\<open>[a-z0-9]\<close> replaced by a single hyphen.
\<close>

definition transformedTitle :: "string \<Rightarrow> string" where
  "transformedTitle ttl =
     concat (map (\<lambda>(outside, run). if outside then ''-'' else run)
                 (maximalRuns notLowerAlnum (toLowerCase ttl)))"

text \<open>An alphanumeric character: a letter of either case or a digit.\<close>

definition isAlphanumeric :: "char \<Rightarrow> bool" where
  "isAlphanumeric c =
     ((CHR ''a'' \<le> c \<and> c \<le> CHR ''z'') \<or> (CHR ''A'' \<le> c \<and> c \<le> CHR ''Z'')
      \<or> (CHR ''0'' \<le> c \<and> c \<le> CHR ''9''))"

subsection \<open>The order of the listing in the words of the specification\<close>

text \<open>
  An earlier post and a later one are in descending order when the number that the id of
  the earlier one coerces to is greater than or equal to that of the later one.
\<close>

definition descending :: "(string \<Rightarrow> number) \<Rightarrow> PostMeta \<Rightarrow> PostMeta \<Rightarrow> bool" where
  "descending toNumber a b = js_ge (toNumber (post_id a)) (toNumber (post_id b))"

subsection \<open>Example inputs\<close>

text \<open>
  A compiler given by a table from sources to the frontmatter it finds in them; it
  fails on a source that is not in the table. It stands in for the MDX compiler where an
  example needs one.
\<close>

definition tableCompiler :: "(string \<times> js_value) list \<Rightarrow> (unit, string) compiler" where
  "tableCompiler table opts source =
     (case map_of table source of
        None \<Rightarrow> Inl ()
      | Some fm \<Rightarrow> Inr \<lparr>content = source, frontmatter = fm\<rparr>)"

definition helloWorld :: js_value where
  "helloWorld =
     JObject [(''title'', JString ''Hello World''), (''date'', JString ''2024-01-01''),
              (''description'', JString ''d''), (''author'', JString ''a'')]"

definition secondPost :: js_value where
  "secondPost =
     JObject [(''title'', JString ''Second''), (''date'', JString ''2024-02-01''),
              (''description'', JString ''d''), (''author'', JString ''a''),
              (''github'', JString ''ekqt'')]"

definition noAuthor :: js_value where
  "noAuthor =
     JObject [(''title'', JString ''Second''), (''date'', JString ''2024-02-01''),
              (''description'', JString ''d'')]"

definition exampleCompiler :: "(unit, string) compiler" where
  "exampleCompiler =
     tableCompiler [(''first'', helloWorld), (''second'', secondPost), (''broken'', noAuthor)]"

definition blogTwoPosts :: file_system where
  "blogTwoPosts =
     map_of [(''src/blog'', Directory [''001.mdx'', ''002.mdx'']),
             (''src/blog/001.mdx'', File ''first''),
             (''src/blog/002.mdx'', File ''second'')]"

definition blogBrokenPost :: file_system where
  "blogBrokenPost =
     map_of [(''src/blog'', Directory [''001.mdx'', ''002.mdx'']),
             (''src/blog/001.mdx'', File ''first''),
             (''src/blog/002.mdx'', File ''broken'')]"

definition blogWithDraft :: file_system where
  "blogWithDraft =
     map_of [(''src/blog'', Directory [''001.mdx'', ''draft.mdx'']),
             (''src/blog/001.mdx'', File ''first''),
             (''src/blog/draft.mdx'', File ''second'')]"

text \<open>
  The coercion of a string to a number on the ids of the examples: a non-empty string of
  decimal digits is read in base ten, and a string with another character in it is not a
  number. The language agrees on digit strings short enough to be exact and on
  \<^verbatim>\<open>draft\<close>; its coercion of other strings (signs, fractions, exponents, blanks) is
  not needed by the examples and not modelled here.
\<close>

definition digitsToNumber :: "string \<Rightarrow> number" where
  "digitsToNumber s =
     (if s \<noteq> [] \<and> list_all (\<lambda>c. CHR ''0'' \<le> c \<and> c \<le> CHR ''9'') s
      then Finite (of_nat (foldl (\<lambda>n c. 10 * n + (of_char c - 48)) 0 s))
      else NaN)"

subsection \<open>Evaluation\<close>

lemma char_eq_char_of_iff: "c = char_of n \<longleftrightarrow> of_char c = take_bit 8 n"
  by (metis char_of_eq_iff)

lemmas char_eval = less_eq_char_def char_of_eq_iff char_eq_char_of_iff

lemmas string_eval =
  fileExtension_def toLowerCase_def toLowerChar_def isCapital_def char_eval notLowerAlnum_def
  filenameToId_def slugify_def

lemmas zod_eval =
  parse_def frontmatterSchema_def metaSchema_def z_object_def z_string_def z_optional_def
  invalidTypeMessage_def frontmatterShape_def metaShape_def metaSchema_shape_id_def
  metaSchema_shape_slug_def issuesOf_def getProp_def Let_def

lemmas example_eval =
  exampleCompiler_def tableCompiler_def helloWorld_def secondPost_def noAuthor_def
  blogTwoPosts_def blogBrokenPost_def blogWithDraft_def digitsToNumber_def

lemmas io_eval =
  readdirSync_def readFileSync_def join_def getPosts_def getPosts_file_def getPost_def
  compareIds_def descending_def

section \<open>Identifiers and slugs\<close>

subsection \<open>Replacing the first occurrence\<close>

lemma replaceFirst_no_occurrence:
  "pat \<noteq> [] \<Longrightarrow> \<not> sublist pat s \<Longrightarrow> replaceFirst pat rep s = s"
proof (induction s)
  case Nil
  then show ?case by simp
next
  case (Cons c cs)
  have "\<not> prefix pat (c # cs)"
    using Cons.prems(2) prefix_imp_sublist by blast
  moreover have "\<not> sublist pat cs"
    using Cons.prems(2) by (auto simp: sublist_Cons_right)
  ultimately show ?case using Cons by simp
qed

text \<open>
  When the pattern occurs, the first occurrence is cut out, and the pattern does not occur
  in what stands before it.
\<close>

lemma replaceFirst_first_occurrence:
  assumes "sublist pat s"
  shows "\<exists>a b. s = a @ pat @ b \<and> replaceFirst pat rep s = a @ rep @ b \<and> (pat \<noteq> [] \<longrightarrow> \<not> sublist pat a)"
  using assms
proof (induction s)
  case Nil
  then show ?case by simp
next
  case (Cons c cs)
  show ?case
  proof (cases "prefix pat (c # cs)")
    case True
    then obtain b where b: "c # cs = pat @ b" by (auto simp: prefix_def)
    have "drop (length pat) (c # cs) = b" unfolding b by simp
    with True have "replaceFirst pat rep (c # cs) = rep @ b" by simp
    with b show ?thesis by (intro exI[of _ "[]"] exI[of _ b]) simp
  next
    case False
    with Cons.prems have "sublist pat cs"
      by (cases pat) (auto simp: sublist_Cons_right)
    from Cons.IH[OF this] obtain a b where ab: "cs = a @ pat @ b"
      "replaceFirst pat rep cs = a @ rep @ b" "pat \<noteq> [] \<longrightarrow> \<not> sublist pat a"
      by blast
    have "pat \<noteq> [] \<longrightarrow> \<not> sublist pat (c # a)"
    proof (intro impI notI)
      assume ne: "pat \<noteq> []" and sub: "sublist pat (c # a)"
      from ne obtain p ps where pat: "pat = p # ps" by (cases pat) auto
      from sub ab(3) ne have "prefix pat (c # a)"
        unfolding pat by (simp add: sublist_Cons_right)
      then have "prefix pat (c # cs)" unfolding ab(1) by (metis append_Cons prefix_prefix)
      with False show False by simp
    qed
    moreover have "replaceFirst pat rep (c # cs) = (c # a) @ rep @ b"
      using False ab(2) by simp
    moreover have "c # cs = (c # a) @ pat @ b" using ab(1) by simp
    ultimately show ?thesis by blast
  qed
qed

text \<open>
  A pattern whose first character does not come back inside it cannot overlap with
  itself, so an occurrence behind a string that does not contain the pattern is the first.
\<close>

lemma replaceFirst_at_first:
  assumes "p \<notin> set ps" and "\<not> sublist (p # ps) s"
  shows "replaceFirst (p # ps) rep (s @ (p # ps) @ rest) = s @ rep @ rest"
  using assms(2)
proof (induction s)
  case Nil
  then show ?case by simp
next
  case (Cons c cs)
  have nsub: "\<not> sublist (p # ps) cs"
    using Cons.prems by (auto simp: sublist_Cons_right)
  have "\<not> prefix (p # ps) (c # cs @ (p # ps) @ rest)"
  proof
    assume pre: "prefix (p # ps) (c # cs @ (p # ps) @ rest)"
    then have c: "c = p" and pre': "prefix ps (cs @ (p # ps) @ rest)" by auto
    show False
    proof (cases "length ps \<le> length cs")
      case True
      have "prefix ps cs"
        by (rule prefix_length_prefix[OF pre' _ True]) simp
      then have "prefix (p # ps) (c # cs)" using c by simp
      then have "sublist (p # ps) (c # cs)" by (rule prefix_imp_sublist)
      with Cons.prems show False by simp
    next
      case False
      then have short: "length cs < length ps" by simp
      from pre' obtain zs where eq: "cs @ (p # ps) @ rest = ps @ zs"
        by (auto simp: prefix_def)
      have "(cs @ (p # ps) @ rest) ! length cs = p" by simp
      moreover have "(ps @ zs) ! length cs = ps ! length cs"
        using short by (simp add: nth_append)
      ultimately have "ps ! length cs = p" using eq by metis
      then have "p \<in> set ps" using short nth_mem by blast
      with assms(1) show False by simp
    qed
  qed
  then show ?case using Cons.IH[OF nsub] by auto
qed

text \<open>
  For such a pattern, the strings that commute with it are its powers.
\<close>

lemma commute_power:
  assumes "p \<notin> set ps"
  shows "(p # ps) @ q = q @ (p # ps) \<Longrightarrow> \<exists>n. q = concat (replicate n (p # ps))"
proof (induction q rule: length_induct)
  case (1 q)
  let ?e = "p # ps"
  show ?case
  proof (cases "q = []")
    case True
    then show ?thesis by (intro exI[of _ 0]) simp
  next
    case ne: False
    show ?thesis
    proof (cases "length ?e \<le> length q")
      case True
      have pre: "prefix ?e (q @ ?e)" using "1.prems" by (metis prefixI)
      have "prefix ?e q" by (rule prefix_length_prefix[OF pre _ True]) simp
      then obtain q' where q': "q = ?e @ q'" by (auto simp: prefix_def)
      with "1.prems" have "?e @ q' = q' @ ?e" by simp
      moreover have "length q' < length q" using q' by simp
      ultimately obtain n where "q' = concat (replicate n ?e)" using "1.IH" by blast
      with q' show ?thesis by (intro exI[of _ "Suc n"]) simp
    next
      case False
      then have short: "length q < length ?e" by simp
      from ne obtain c cs where q: "q = c # cs" by (cases q) auto
      have "(q @ ?e) ! length q = p" by simp
      moreover have "(?e @ q) ! length q = ?e ! length q"
        by (simp only: nth_append short if_True)
      ultimately have "?e ! length q = p" using "1.prems" by simp
      then have "ps ! length cs = p" using q by simp
      moreover have "length cs < length ps" using short q by simp
      ultimately have "p \<in> set ps" using nth_mem by blast
      with assms show ?thesis by simp
    qed
  qed
qed

lemma concat_replicate_commute: "concat (replicate n e) @ e = e @ concat (replicate n e)"
  by (induction n) simp_all

lemma set_replaceFirst_Nil: "set (replaceFirst pat [] s) \<subseteq> set s"
  by (induction s) (auto dest: in_set_dropD)

subsection \<open>Lowercase strings\<close>

lemma toLowerChar_idem: "toLowerChar (toLowerChar c) = toLowerChar c"
proof -
  have "\<not> isCapital (char_of (of_char c + (32::nat)))" if "isCapital c"
    using that by (auto simp: isCapital_def less_eq_char_def char_of_eq_iff)
  then show ?thesis by (simp add: toLowerChar_def)
qed

lemma toLowerCase_idem: "toLowerCase (toLowerCase s) = toLowerCase s"
  by (simp add: toLowerCase_def toLowerChar_idem)

lemma toLowerCase_fixed_iff: "toLowerCase s = s \<longleftrightarrow> (\<forall>c \<in> set s. toLowerChar c = c)"
  by (induction s) (auto simp: toLowerCase_def)

lemma toLowerCase_append: "toLowerCase (a @ b) = toLowerCase a @ toLowerCase b"
  by (simp add: toLowerCase_def)

lemma toLowerCase_fileExtension: "toLowerCase fileExtension = fileExtension"
  by (simp add: string_eval)

lemma filenameToId_lowercase: "toLowerCase (filenameToId f) = filenameToId f"
proof -
  have "\<forall>c \<in> set (toLowerCase f). toLowerChar c = c"
    using toLowerCase_idem[of f] by (simp only: toLowerCase_fixed_iff)
  then have "\<forall>c \<in> set (filenameToId f). toLowerChar c = c"
    using set_replaceFirst_Nil[of fileExtension "toLowerCase f"]
    unfolding filenameToId_def by blast
  then show ?thesis by (simp only: toLowerCase_fixed_iff)
qed

subsection \<open>From a slug back to a file name\<close>

lemma getFilename_eq:
  "getFilename slg = Inr (takeWhile (\<lambda>c. c \<noteq> CHR ''-'') slg @ fileExtension)"
  by (simp add: getFilename_def matchLeadingNonHyphens_def parse_def metaSchema_shape_id_def
      z_string_def)

lemma getFilename_slugify:
  assumes "CHR ''-'' \<notin> set (filenameToId f)"
  shows "getFilename (slugify f t) = Inr (filenameToId f @ fileExtension)"
proof -
  have "takeWhile (\<lambda>c. c \<noteq> CHR ''-'') (filenameToId f @ CHR ''-'' # r) = filenameToId f" for r
    using assms by (auto simp: takeWhile_tail)
  then show ?thesis
    by (simp add: getFilename_eq slugify_def Let_def)
qed

text \<open>
  Claim C1, as the module has it. The claim asks that \<open>getFilename (slugify f t)\<close> gives
  back \<open>f\<close> for every file name whose id holds no hyphen. The id is the lowercased name
  without its first \<^verbatim>\<open>.mdx\<close>, and \<open>getFilename\<close> appends \<^verbatim>\<open>.mdx\<close> to it. So, for every
  file name whose id holds no hyphen and every title, \<open>getFilename (slugify f t)\<close>
  returns \<open>f\<close> if and only if \<open>f\<close> is already in lowercase and is a stem without
  \<^verbatim>\<open>.mdx\<close> in it followed by one or more copies of \<^verbatim>\<open>.mdx\<close>.
\<close>

theorem slug_roundtrip:
  assumes "CHR ''-'' \<notin> set (filenameToId f)"
  shows "((getFilename (slugify f t) :: 'x error + string) = Inr f)
     \<longleftrightarrow> (toLowerCase f = f
          \<and> (\<exists>stem n. \<not> sublist fileExtension stem
                \<and> f = stem @ concat (replicate (Suc n) fileExtension)))"
proof
  have g: "(getFilename (slugify f t) :: 'x error + string)
      = Inr (filenameToId f @ fileExtension)"
    by (rule getFilename_slugify[OF assms])
  assume "(getFilename (slugify f t) :: 'x error + string) = Inr f"
  with g have f: "f = filenameToId f @ fileExtension" by simp
  have "toLowerCase f = toLowerCase (filenameToId f) @ toLowerCase fileExtension"
    by (subst f) (rule toLowerCase_append)
  also have "\<dots> = filenameToId f @ fileExtension"
    by (simp only: filenameToId_lowercase toLowerCase_fileExtension)
  finally have low: "toLowerCase f = f" using f by simp
  then have ident: "filenameToId f = replaceFirst fileExtension [] f"
    by (simp add: filenameToId_def)
  have "sublist fileExtension f" by (subst f) simp
  from replaceFirst_first_occurrence[OF this, of "[]"]
  obtain a b where ab: "f = a @ fileExtension @ b"
    and r: "replaceFirst fileExtension [] f = a @ b"
    and na: "fileExtension \<noteq> [] \<longrightarrow> \<not> sublist fileExtension a"
    by auto
  from f ab ident r have "a @ fileExtension @ b = a @ b @ fileExtension" by simp
  then have "(CHR ''.'' # ''mdx'') @ b = b @ (CHR ''.'' # ''mdx'')"
    by (simp add: fileExtension_def)
  from commute_power[OF _ this] obtain n where "b = concat (replicate n fileExtension)"
    by (auto simp: fileExtension_def)
  with ab have "f = a @ concat (replicate (Suc n) fileExtension)" by simp
  moreover have "\<not> sublist fileExtension a" using na by (simp add: fileExtension_def)
  ultimately show "toLowerCase f = f
          \<and> (\<exists>stem n. \<not> sublist fileExtension stem
                \<and> f = stem @ concat (replicate (Suc n) fileExtension))"
    using low by blast
next
  assume "toLowerCase f = f
          \<and> (\<exists>stem n. \<not> sublist fileExtension stem
                \<and> f = stem @ concat (replicate (Suc n) fileExtension))"
  then obtain stem n where low: "toLowerCase f = f"
    and ns: "\<not> sublist fileExtension stem"
    and f: "f = stem @ concat (replicate (Suc n) fileExtension)"
    by blast
  let ?rest = "concat (replicate n fileExtension)"
  have f': "f = stem @ (CHR ''.'' # ''mdx'') @ ?rest"
    using f by (simp add: fileExtension_def)
  have "filenameToId f = replaceFirst (CHR ''.'' # ''mdx'') [] (stem @ (CHR ''.'' # ''mdx'') @ ?rest)"
    using low f' by (simp add: filenameToId_def fileExtension_def)
  also have "\<dots> = stem @ [] @ ?rest"
    using ns by (intro replaceFirst_at_first) (simp_all add: fileExtension_def)
  finally have "filenameToId f @ fileExtension = stem @ ?rest @ fileExtension" by simp
  also have "\<dots> = stem @ fileExtension @ ?rest"
    by (simp only: concat_replicate_commute)
  also have "\<dots> = f" using f by simp
  finally have "filenameToId f @ fileExtension = f" .
  moreover have "(getFilename (slugify f t) :: 'x error + string)
      = Inr (filenameToId f @ fileExtension)"
    by (rule getFilename_slugify[OF assms])
  ultimately show "(getFilename (slugify f t) :: 'x error + string) = Inr f" by simp
qed

theorem slug_roundtrip_witness:
  "CHR ''-'' \<notin> set (filenameToId ''001.mdx'')
   \<and> toLowerCase ''001.mdx'' = ''001.mdx''
   \<and> \<not> sublist fileExtension ''001''
   \<and> ''001.mdx'' = ''001'' @ concat (replicate (Suc 0) fileExtension)
   \<and> (getFilename (slugify ''001.mdx'' ''Hello World'') :: unit error + string)
       = Inr ''001.mdx''"
proof -
  have h1: "CHR ''-'' \<notin> set (filenameToId ''001.mdx'')" by (simp add: string_eval)
  have h2: "toLowerCase ''001.mdx'' = ''001.mdx''" by (simp add: string_eval)
  have h3: "\<not> sublist fileExtension ''001''" by (simp add: string_eval sublist_Cons_right)
  have h4: "''001.mdx'' = ''001'' @ concat (replicate (Suc 0) fileExtension)"
    by (simp add: string_eval)
  have "(getFilename (slugify ''001.mdx'' ''Hello World'') :: unit error + string)
       = Inr ''001.mdx''"
    using h2 h3 h4 by (intro slug_roundtrip[OF h1, THEN iffD2]) blast
  with h1 h2 h3 h4 show ?thesis by (intro conjI)
qed

text \<open>
  Claim C1 as stated fails on a file name with a capital letter: the id of
  \<^verbatim>\<open>Post.mdx\<close> is \<^verbatim>\<open>post\<close>, without a hyphen, and the slug leads back to
  \<^verbatim>\<open>post.mdx\<close>. It fails as well on \<^verbatim>\<open>notes.md\<close>, which does not end in the
  extension, and on \<^verbatim>\<open>a.mdxb.mdx\<close>, where the first \<^verbatim>\<open>.mdx\<close> is followed by something
  else than copies of it.
\<close>

theorem slug_roundtrip_counterexample:
  "CHR ''-'' \<notin> set (filenameToId ''Post.mdx'')
   \<and> (getFilename (slugify ''Post.mdx'' ''Hello World'') :: unit error + string)
       = Inr ''post.mdx''
   \<and> (getFilename (slugify ''Post.mdx'' ''Hello World'') :: unit error + string)
       \<noteq> Inr ''Post.mdx''
   \<and> CHR ''-'' \<notin> set (filenameToId ''notes.md'')
   \<and> (getFilename (slugify ''notes.md'' ''Hello World'') :: unit error + string)
       = Inr ''notes.md.mdx''
   \<and> CHR ''-'' \<notin> set (filenameToId ''a.mdxb.mdx'')
   \<and> (getFilename (slugify ''a.mdxb.mdx'' ''Hello World'') :: unit error + string)
       = Inr ''ab.mdx.mdx''"
  by (simp add: getFilename_eq string_eval)

text \<open>
  Claim C9, as the module has it. The claim asks that \<open>filenameToId\<close> leaves alone every
  string that does not end in the extension. The function lowercases its argument and
  removes the first \<^verbatim>\<open>.mdx\<close> wherever it stands; what holds is: every string that is
  already in lowercase and does not contain the extension is returned unchanged.
\<close>

theorem filenameToId_noop:
  assumes "toLowerCase x = x" and "\<not> sublist fileExtension x"
  shows "filenameToId x = x"
  using assms replaceFirst_no_occurrence[of fileExtension x "[]"]
  by (simp add: filenameToId_def fileExtension_def)

theorem filenameToId_noop_witness:
  "toLowerCase ''001'' = ''001'' \<and> \<not> sublist fileExtension ''001''
   \<and> filenameToId ''001'' = ''001''"
proof -
  have h1: "toLowerCase ''001'' = ''001''" by (simp add: string_eval)
  have h2: "\<not> sublist fileExtension ''001''" by (simp add: string_eval sublist_Cons_right)
  show ?thesis using h1 h2 filenameToId_noop[OF h1 h2] by simp
qed

text \<open>
  Claim C9 as stated fails on \<^verbatim>\<open>Draft\<close>, which does not end in the extension and is
  lowercased, and on \<^verbatim>\<open>a.mdxb\<close>, which is itself the id of the file name
  \<^verbatim>\<open>a.mdx.mdxb\<close>, does not end in the extension and loses the \<^verbatim>\<open>.mdx\<close> inside it.
\<close>

theorem filenameToId_noop_counterexample:
  "\<not> suffix fileExtension ''Draft'' \<and> filenameToId ''Draft'' = ''draft''
   \<and> filenameToId ''Draft'' \<noteq> ''Draft''
   \<and> filenameToId ''a.mdx.mdxb'' = ''a.mdxb''
   \<and> \<not> suffix fileExtension ''a.mdxb'' \<and> filenameToId ''a.mdxb'' = ''ab''
   \<and> filenameToId ''a.mdxb'' \<noteq> ''a.mdxb''"
  by (simp add: string_eval suffix_to_prefix)

subsection \<open>The title part of a slug\<close>

lemma replaceRuns_all_in_class:
  assumes "s \<noteq> []" and "\<forall>c \<in> set s. cls c"
  shows "replaceRuns cls rep s = rep"
proof (cases s)
  case Nil
  with assms(1) show ?thesis by simp
next
  case (Cons c cs)
  with assms(2) have c: "cls c" and d: "dropWhile cls cs = []" by auto
  have "replaceRuns cls rep (c # cs) = rep @ replaceRuns cls rep (dropWhile cls cs)"
    using c by simp
  also have "\<dots> = rep" by (simp only: d replaceRuns.simps append_Nil2)
  finally show ?thesis using Cons by simp
qed

lemma toLowerChar_alnum:
  "notLowerAlnum (toLowerChar c) \<longleftrightarrow> \<not> isAlphanumeric c"
  by (auto simp: toLowerChar_def isCapital_def notLowerAlnum_def isAlphanumeric_def
      less_eq_char_def)

lemma replaceRuns_skip:
  "replaceRuns cls rep s =
     takeWhile (\<lambda>d. \<not> cls d) s @ replaceRuns cls rep (dropWhile (\<lambda>d. \<not> cls d) s)"
  by (induction s) auto

text \<open>
  The runs of \<open>maximalRuns\<close> are what the name says: put together they give the string
  back, each is non-empty and on one side of the class, and neighbours are on
  different sides.
\<close>

lemma concat_maximalRuns: "concat (map snd (maximalRuns cls s)) = s"
proof (induction cls s rule: maximalRuns.induct)
  case (1 cls)
  show ?case by simp
next
  case (2 cls c cs)
  have "concat (map snd (maximalRuns cls (c # cs)))
      = c # takeWhile (\<lambda>d. cls d = cls c) cs
          @ concat (map snd (maximalRuns cls (dropWhile (\<lambda>d. cls d = cls c) cs)))"
    by (simp only: maximalRuns.simps list.map concat.simps snd_conv append_Cons)
  also have "\<dots> = c # takeWhile (\<lambda>d. cls d = cls c) cs @ dropWhile (\<lambda>d. cls d = cls c) cs"
    by (simp only: "2.IH")
  also have "\<dots> = c # cs" by (simp only: takeWhile_dropWhile_id)
  finally show ?case .
qed

lemma maximalRuns_homogeneous:
  "(b, run) \<in> set (maximalRuns cls s) \<Longrightarrow> run \<noteq> [] \<and> (\<forall>c \<in> set run. cls c = b)"
proof (induction cls s rule: maximalRuns.induct)
  case (1 cls)
  then show ?case by simp
next
  case (2 cls c cs)
  let ?rest = "dropWhile (\<lambda>d. cls d = cls c) cs"
  from "2.prems" have "(b, run) = (cls c, c # takeWhile (\<lambda>d. cls d = cls c) cs)
      \<or> (b, run) \<in> set (maximalRuns cls ?rest)"
    by (simp only: maximalRuns.simps set_simps insert_iff)
  then show ?case
  proof
    assume "(b, run) = (cls c, c # takeWhile (\<lambda>d. cls d = cls c) cs)"
    then have b: "b = cls c" and run: "run = c # takeWhile (\<lambda>d. cls d = cls c) cs"
      by simp_all
    have tw: "cls x = cls c" if "x \<in> set (takeWhile (\<lambda>d. cls d = cls c) cs)" for x
      using that by (rule set_takeWhileD[THEN conjunct2])
    have "run \<noteq> []" unfolding run by (rule list.distinct(2))
    moreover have "\<forall>x \<in> set run. cls x = b"
      unfolding b run using tw by (metis set_ConsD)
    ultimately show ?thesis by (rule conjI)
  next
    assume "(b, run) \<in> set (maximalRuns cls ?rest)"
    then show ?thesis by (rule "2.IH")
  qed
qed

lemma maximalRuns_alternate:
  "maximalRuns cls s = r1 @ (b1, run1) # (b2, run2) # r2 \<Longrightarrow> b1 \<noteq> b2"
proof (induction cls s arbitrary: r1 rule: maximalRuns.induct)
  case (1 cls)
  then show ?case by simp
next
  case (2 cls c cs)
  let ?rest = "dropWhile (\<lambda>d. cls d = cls c) cs"
  show ?case
  proof (cases r1)
    case Nil
    with "2.prems" have eq: "(cls c, c # takeWhile (\<lambda>d. cls d = cls c) cs) # maximalRuns cls ?rest
        = (b1, run1) # (b2, run2) # r2" by (simp only: maximalRuns.simps append_Nil)
    from eq have b1: "b1 = cls c" by simp
    from eq have tl: "maximalRuns cls ?rest = (b2, run2) # r2"
      by (rule list.inject[THEN iffD1, THEN conjunct2])
    from tl obtain d ds where rest: "?rest = d # ds" by (cases ?rest) auto
    with tl have b2: "b2 = cls d" by simp
    have "?rest \<noteq> []" using rest by simp
    then have "\<not> (cls (hd ?rest) = cls c)" by (rule hd_dropWhile)
    then have "cls d \<noteq> cls c" unfolding rest by simp
    with b1 b2 show ?thesis by simp
  next
    case (Cons r rs)
    with "2.prems" have "maximalRuns cls ?rest = rs @ (b1, run1) # (b2, run2) # r2"
      by (simp del: maximalRuns.simps add: maximalRuns.simps(2)[of cls c cs])
    then show ?thesis by (rule "2.IH")
  qed
qed

lemma replaceRuns_maximalRuns:
  "replaceRuns cls rep s =
     concat (map (\<lambda>(outside, run). if outside then rep else run) (maximalRuns cls s))"
proof (induction cls s rule: maximalRuns.induct)
  case (1 cls)
  show ?case by simp
next
  case (2 cls c cs)
  show ?case
  proof (cases "cls c")
    case True
    then show ?thesis using 2 by simp
  next
    case False
    then show ?thesis using 2 replaceRuns_skip[of cls rep cs] by simp
  qed
qed

text \<open>
  Claim C5: for every file name and title, the slug is the id, a hyphen, and the title
  lowercased with every maximal run of characters outside \<^verbatim>\<open>[a-z0-9]\<close> replaced by a
  single hyphen; the file \<^verbatim>\<open>001.mdx\<close>, whose id is \<^verbatim>\<open>001\<close>, with the title
  \<^verbatim>\<open>Hello World\<close> gets the slug \<^verbatim>\<open>001-hello-world\<close>.
\<close>

theorem slugify_spec:
  "slugify filename ttl = filenameToId filename @ ''-'' @ transformedTitle ttl
   \<and> filenameToId ''001.mdx'' = ''001''
   \<and> slugify ''001.mdx'' ''Hello World'' = ''001-hello-world''"
proof -
  have "slugify filename ttl = filenameToId filename @ ''-'' @ transformedTitle ttl"
    by (simp only: slugify_def transformedTitle_def replaceRuns_maximalRuns Let_def)
  moreover have "filenameToId ''001.mdx'' = ''001''"
    by (simp add: string_eval)
  moreover have "slugify ''001.mdx'' ''Hello World'' = ''001-hello-world''"
    by (simp add: string_eval)
  ultimately show ?thesis by blast
qed

theorem slugify_spec_witness:
  "slugify ''002.mdx'' ''Zod & MDX: a tour!'' = ''002-zod-mdx-a-tour-''
   \<and> transformedTitle ''Zod & MDX: a tour!'' = ''zod-mdx-a-tour-''"
proof -
  have "slugify ''002.mdx'' ''Zod & MDX: a tour!'' = ''002-zod-mdx-a-tour-''"
    by (simp add: string_eval)
  moreover have "filenameToId ''002.mdx'' = ''002''"
    by (simp add: string_eval)
  ultimately show ?thesis
    using slugify_spec[of "''002.mdx''" "''Zod & MDX: a tour!''"] by simp
qed

text \<open>
  Claim C3, as the module has it. The claim asks that a title without alphanumeric
  characters gives the slug id plus one hyphen. The transformed title is empty for the
  empty title only; a non-empty title without alphanumeric characters is one run, which
  becomes one hyphen. So: for the empty title the slug is the id followed by one
  hyphen, and for every non-empty title without alphanumeric characters it is the id
  followed by two hyphens; neither is an error.
\<close>

theorem slugify_title_without_alphanumerics:
  "slugify filename [] = filenameToId filename @ ''-''
   \<and> (ttl \<noteq> [] \<and> (\<forall>c \<in> set ttl. \<not> isAlphanumeric c)
        \<longrightarrow> slugify filename ttl = filenameToId filename @ ''--'')"
proof -
  have "slugify filename [] = filenameToId filename @ ''-''"
    by (simp add: slugify_def toLowerCase_def)
  moreover have "slugify filename ttl = filenameToId filename @ ''--''"
    if ne: "ttl \<noteq> []" and no: "\<forall>c \<in> set ttl. \<not> isAlphanumeric c"
  proof -
    have "replaceRuns notLowerAlnum ''-'' (toLowerCase ttl) = ''-''"
    proof (rule replaceRuns_all_in_class)
      show "toLowerCase ttl \<noteq> []" using ne by (simp add: toLowerCase_def)
      show "\<forall>c \<in> set (toLowerCase ttl). notLowerAlnum c"
        using no by (simp add: toLowerCase_def toLowerChar_alnum)
    qed
    then show ?thesis by (simp add: slugify_def)
  qed
  ultimately show ?thesis by blast
qed

theorem slugify_title_without_alphanumerics_witness:
  "slugify ''001.mdx'' [] = ''001-''
   \<and> ''?!'' \<noteq> [] \<and> \<not> isAlphanumeric (CHR ''?'') \<and> \<not> isAlphanumeric (CHR ''!'')
   \<and> slugify ''001.mdx'' ''?!'' = ''001--''"
proof -
  have h: "''?!'' \<noteq> [] \<and> (\<forall>c \<in> set ''?!''. \<not> isAlphanumeric c)"
    by (simp add: isAlphanumeric_def char_eval)
  have i: "filenameToId ''001.mdx'' = ''001''" by (simp add: string_eval)
  show ?thesis
    using h i slugify_title_without_alphanumerics[of "''001.mdx''" "''?!''"] by simp
qed

text \<open>
  Claim C3 as stated fails on the title \<^verbatim>\<open>?!\<close>: neither character is alphanumeric,
  and the slug of \<^verbatim>\<open>001.mdx\<close> is \<^verbatim>\<open>001--\<close>, not the id followed by one hyphen.
\<close>

theorem slugify_title_without_alphanumerics_counterexample:
  "\<not> isAlphanumeric (CHR ''?'') \<and> \<not> isAlphanumeric (CHR ''!'')
   \<and> slugify ''001.mdx'' ''?!'' = ''001--''
   \<and> slugify ''001.mdx'' ''?!'' \<noteq> filenameToId ''001.mdx'' @ ''-''"
  by (simp add: string_eval isAlphanumeric_def)

section \<open>Reading one post\<close>

text \<open>
  Claim C10: the id schema in \<open>getFilename\<close> rejects nothing. For every slug, the empty
  one and one that starts with a hyphen as well, the match gives a string, the id schema
  accepts every string, \<open>getFilename\<close> returns the leading segment followed by the
  extension, and \<open>getPost\<close> never fails with a schema error.
\<close>

theorem getFilename_never_rejects:
  fixes compileMDX :: "('x, 'c) compiler"
  shows "matchLeadingNonHyphens slg = Some [takeWhile (\<lambda>c. c \<noteq> CHR ''-'') slg]
   \<and> (parse metaSchema_shape_id (JString m) :: 'x error + string) = Inr m
   \<and> (getFilename slg :: 'x error + string)
       = Inr (takeWhile (\<lambda>c. c \<noteq> CHR ''-'') slg @ fileExtension)
   \<and> (\<forall>issues. getPost compileMDX fs blogDir slg \<noteq> Inl (ZodError issues))"
proof -
  have "getPost compileMDX fs blogDir slg \<noteq> Inl (ZodError issues)" for issues
    by (simp add: getPost_def getFilename_eq readFileSync_def
        split: option.splits fs_node.splits sum.splits)
  then show ?thesis
    by (simp add: getFilename_eq matchLeadingNonHyphens_def parse_def metaSchema_shape_id_def
        z_string_def)
qed

theorem getFilename_never_rejects_witness:
  "(getFilename [] :: unit error + string) = Inr ''.mdx''
   \<and> (getFilename ''-draft'' :: unit error + string) = Inr ''.mdx''
   \<and> (getFilename ''001-hello-world'' :: unit error + string) = Inr ''001.mdx''"
  using getFilename_never_rejects[of "[]" "[]" exampleCompiler blogTwoPosts "''src/blog''"]
    getFilename_never_rejects[of "''-draft''" "[]" exampleCompiler blogTwoPosts "''src/blog''"]
    getFilename_never_rejects[of "''001-hello-world''" "[]" exampleCompiler blogTwoPosts
      "''src/blog''"]
  by (simp add: fileExtension_def)

text \<open>
  Claim C7: the file that \<open>getPost\<close> reads is the leading segment of the slug, up to the
  first hyphen, followed by the extension, in the blog directory; two slugs with the same
  leading segment give the same result, whatever follows the hyphen.
\<close>

theorem getPost_reads_leading_segment:
  fixes compileMDX :: "('x, 'c) compiler"
  shows "getPost compileMDX fs blogDir slg =
     (case readFileSync fs
             (join blogDir (takeWhile (\<lambda>c. c \<noteq> CHR ''-'') slg @ fileExtension)) of
        Inl e \<Rightarrow> Inl e
      | Inr source \<Rightarrow>
         (case compileMDX
                 \<lparr>parseFrontmatter = True, rehypePlugins = [''rehypeSlug''],
                  components = True\<rparr> source of
            Inl x \<Rightarrow> Inl (MdxError x)
          | Inr compiled \<Rightarrow> Inr compiled))
   \<and> (takeWhile (\<lambda>c. c \<noteq> CHR ''-'') slg = takeWhile (\<lambda>c. c \<noteq> CHR ''-'') slg'
        \<longrightarrow> getPost compileMDX fs blogDir slg = getPost compileMDX fs blogDir slg')"
  by (simp add: getPost_def getFilename_eq)

theorem getPost_reads_leading_segment_witness:
  "(readFileSync blogTwoPosts (join ''src/blog'' ''001.mdx'') :: unit error + string)
     = Inr ''first''
   \<and> getPost exampleCompiler blogTwoPosts ''src/blog'' ''001-hello-world''
       = Inr \<lparr>content = ''first'', frontmatter = helloWorld\<rparr>
   \<and> getPost exampleCompiler blogTwoPosts ''src/blog'' ''001-another-title''
       = getPost exampleCompiler blogTwoPosts ''src/blog'' ''001-hello-world''"
proof -
  have seg: "takeWhile (\<lambda>c. c \<noteq> CHR ''-'') ''001-another-title''
      = takeWhile (\<lambda>c. c \<noteq> CHR ''-'') ''001-hello-world''" by simp
  have rd: "(readFileSync blogTwoPosts (join ''src/blog'' ''001.mdx'') :: unit error + string)
      = Inr ''first''"
    by (simp add: readFileSync_def join_def blogTwoPosts_def)
  have first: "getPost exampleCompiler blogTwoPosts ''src/blog'' ''001-hello-world''
      = Inr \<lparr>content = ''first'', frontmatter = helloWorld\<rparr>"
    using getPost_reads_leading_segment[of exampleCompiler blogTwoPosts "''src/blog''"
        "''001-hello-world''" "''001-hello-world''"] rd
    by (simp add: fileExtension_def exampleCompiler_def tableCompiler_def)
  have same: "getPost exampleCompiler blogTwoPosts ''src/blog'' ''001-another-title''
      = getPost exampleCompiler blogTwoPosts ''src/blog'' ''001-hello-world''"
    by (rule getPost_reads_leading_segment[of exampleCompiler blogTwoPosts "''src/blog''"
          "''001-another-title''" "''001-hello-world''", THEN conjunct2, rule_format, OF seg])
  show ?thesis
    by (intro conjI) (rule rd, rule first, rule same)
qed

section \<open>Validation\<close>

lemma z_string_undefined:
  "z_string req p JUndefined =
     Inl [\<lparr>path = p, message = (case req of Some m \<Rightarrow> m | None \<Rightarrow> ''Required'')\<rparr>]"
  by (simp add: z_string_def invalidTypeMessage_def)

lemma z_string_string: "z_string req p (JString s) = Inr s"
  by (simp add: z_string_def)

lemma frontmatterShape_missing:
  assumes "(k, m) \<in> {(''title'', ''Title is required''), (''date'', ''Date is required''),
                     (''description'', ''Description is required''),
                     (''author'', ''Author is required'')}"
    and "getProp props k = JUndefined"
  shows "\<exists>issues. frontmatterShape p props = Inl issues
           \<and> \<lparr>path = p @ [k], message = m\<rparr> \<in> set issues"
  using assms
  by (auto simp: frontmatterShape_def Let_def z_string_undefined issuesOf_def
      split: sum.splits)

lemma frontmatterShape_accepts:
  assumes "getProp props ''title'' = JString t" and "getProp props ''date'' = JString d"
    and "getProp props ''description'' = JString ds" and "getProp props ''author'' = JString a"
    and "getProp props ''github'' = JUndefined"
  shows "frontmatterShape p props =
     Inr \<lparr>title = t, date = d, description = ds, author = a, github = None\<rparr>"
  using assms
  by (simp add: frontmatterShape_def Let_def z_string_string z_optional_def)

lemma parse_frontmatterSchema_missing:
  assumes "(k, m) \<in> {(''title'', ''Title is required''), (''date'', ''Date is required''),
                     (''description'', ''Description is required''),
                     (''author'', ''Author is required'')}"
    and "getProp props k = JUndefined"
  shows "\<exists>issues. parse frontmatterSchema (JObject props) = Inl (ZodError issues)
           \<and> \<lparr>path = [k], message = m\<rparr> \<in> set issues"
proof -
  from frontmatterShape_missing[OF assms, of "[]"]
  obtain issues where "frontmatterShape [] props = Inl issues"
    and "\<lparr>path = [k], message = m\<rparr> \<in> set issues"
    by (elim exE conjE) simp
  then show ?thesis
    by (simp add: parse_def frontmatterSchema_def z_object_def)
qed

text \<open>
  Claim C6: a raw header that lacks one of \<^verbatim>\<open>title\<close>, \<^verbatim>\<open>date\<close>, \<^verbatim>\<open>description\<close> and
  \<^verbatim>\<open>author\<close> fails the frontmatter schema, and the error holds the issue of that key with
  its message; a header with the four as strings and without \<^verbatim>\<open>github\<close> is accepted;
  a header that is absent fails with \<^verbatim>\<open>Post not found\<close>.
\<close>

theorem frontmatter_validation:
  "(getProp props ''title'' = JUndefined \<longrightarrow>
      (\<exists>issues. (parse frontmatterSchema (JObject props) :: 'x error + FrontMatter)
                   = Inl (ZodError issues)
         \<and> \<lparr>path = [''title''], message = ''Title is required''\<rparr> \<in> set issues))
   \<and> (getProp props ''date'' = JUndefined \<longrightarrow>
      (\<exists>issues. (parse frontmatterSchema (JObject props) :: 'x error + FrontMatter)
                   = Inl (ZodError issues)
         \<and> \<lparr>path = [''date''], message = ''Date is required''\<rparr> \<in> set issues))
   \<and> (getProp props ''description'' = JUndefined \<longrightarrow>
      (\<exists>issues. (parse frontmatterSchema (JObject props) :: 'x error + FrontMatter)
                   = Inl (ZodError issues)
         \<and> \<lparr>path = [''description''], message = ''Description is required''\<rparr> \<in> set issues))
   \<and> (getProp props ''author'' = JUndefined \<longrightarrow>
      (\<exists>issues. (parse frontmatterSchema (JObject props) :: 'x error + FrontMatter)
                   = Inl (ZodError issues)
         \<and> \<lparr>path = [''author''], message = ''Author is required''\<rparr> \<in> set issues))
   \<and> (getProp props ''title'' = JString t \<and> getProp props ''date'' = JString d
        \<and> getProp props ''description'' = JString ds \<and> getProp props ''author'' = JString a
        \<and> getProp props ''github'' = JUndefined \<longrightarrow>
      (parse frontmatterSchema (JObject props) :: 'x error + FrontMatter)
        = Inr \<lparr>title = t, date = d, description = ds, author = a, github = None\<rparr>)
   \<and> (parse frontmatterSchema JUndefined :: 'x error + FrontMatter)
       = Inl (ZodError [\<lparr>path = [], message = ''Post not found''\<rparr>])"
proof (intro conjI impI)
  assume "getProp props ''title'' = JUndefined"
  then show "\<exists>issues. (parse frontmatterSchema (JObject props) :: 'x error + FrontMatter)
                   = Inl (ZodError issues)
         \<and> \<lparr>path = [''title''], message = ''Title is required''\<rparr> \<in> set issues"
    by (intro parse_frontmatterSchema_missing) simp_all
next
  assume "getProp props ''date'' = JUndefined"
  then show "\<exists>issues. (parse frontmatterSchema (JObject props) :: 'x error + FrontMatter)
                   = Inl (ZodError issues)
         \<and> \<lparr>path = [''date''], message = ''Date is required''\<rparr> \<in> set issues"
    by (intro parse_frontmatterSchema_missing) simp_all
next
  assume "getProp props ''description'' = JUndefined"
  then show "\<exists>issues. (parse frontmatterSchema (JObject props) :: 'x error + FrontMatter)
                   = Inl (ZodError issues)
         \<and> \<lparr>path = [''description''], message = ''Description is required''\<rparr> \<in> set issues"
    by (intro parse_frontmatterSchema_missing) simp_all
next
  assume "getProp props ''author'' = JUndefined"
  then show "\<exists>issues. (parse frontmatterSchema (JObject props) :: 'x error + FrontMatter)
                   = Inl (ZodError issues)
         \<and> \<lparr>path = [''author''], message = ''Author is required''\<rparr> \<in> set issues"
    by (intro parse_frontmatterSchema_missing) simp_all
next
  assume "getProp props ''title'' = JString t \<and> getProp props ''date'' = JString d
        \<and> getProp props ''description'' = JString ds \<and> getProp props ''author'' = JString a
        \<and> getProp props ''github'' = JUndefined"
  then have "frontmatterShape [] props =
     Inr \<lparr>title = t, date = d, description = ds, author = a, github = None\<rparr>"
    by (intro frontmatterShape_accepts) simp_all
  then show "(parse frontmatterSchema (JObject props) :: 'x error + FrontMatter)
      = Inr \<lparr>title = t, date = d, description = ds, author = a, github = None\<rparr>"
    by (simp add: parse_def frontmatterSchema_def z_object_def)
next
  show "(parse frontmatterSchema JUndefined :: 'x error + FrontMatter)
       = Inl (ZodError [\<lparr>path = [], message = ''Post not found''\<rparr>])"
    by (simp add: parse_def frontmatterSchema_def z_object_def invalidTypeMessage_def)
qed

theorem frontmatter_validation_witness:
  "getProp [(''title'', JString ''Second''), (''date'', JString ''2024-02-01''),
            (''description'', JString ''d'')] ''author'' = JUndefined
   \<and> (parse frontmatterSchema noAuthor :: unit error + FrontMatter)
       = Inl (ZodError [\<lparr>path = [''author''], message = ''Author is required''\<rparr>])
   \<and> (parse frontmatterSchema helloWorld :: unit error + FrontMatter)
       = Inr \<lparr>title = ''Hello World'', date = ''2024-01-01'', description = ''d'',
              author = ''a'', github = None\<rparr>"
proof -
  let ?broken = "[(''title'', JString ''Second''), (''date'', JString ''2024-02-01''),
                  (''description'', JString ''d'')]"
  let ?hello = "[(''title'', JString ''Hello World''), (''date'', JString ''2024-01-01''),
                 (''description'', JString ''d''), (''author'', JString ''a'')]"
  have u: "getProp ?broken ''author'' = JUndefined" by (simp add: getProp_def)
  have b: "(parse frontmatterSchema noAuthor :: unit error + FrontMatter)
       = Inl (ZodError [\<lparr>path = [''author''], message = ''Author is required''\<rparr>])"
    using frontmatter_validation[where 'x = unit, of ?broken "''Second''" "''2024-02-01''" "''d''" "''a''"] u
    by (simp add: zod_eval noAuthor_def)
  have h: "(parse frontmatterSchema helloWorld :: unit error + FrontMatter)
       = Inr \<lparr>title = ''Hello World'', date = ''2024-01-01'', description = ''d'',
              author = ''a'', github = None\<rparr>"
    using frontmatter_validation[where 'x = unit, of ?hello "''Hello World''" "''2024-01-01''" "''d''" "''a''"]
    by (simp add: getProp_def helloWorld_def)
  show ?thesis by (intro conjI) (rule u, rule b, rule h)
qed

text \<open>
  Claim C2, on the code: \<open>getPost\<close> hands back what the compiler returns and validates
  nothing. The file \<^verbatim>\<open>002.mdx\<close> below has a header without \<^verbatim>\<open>author\<close>; the extended
  schema rejects that header, and \<open>getPost\<close> returns it all the same.
\<close>

theorem getPost_returns_unvalidated_header:
  "getPost exampleCompiler blogBrokenPost ''src/blog'' ''002-second''
     = Inr \<lparr>content = ''broken'', frontmatter = noAuthor\<rparr>
   \<and> (parse metaSchema noAuthor :: unit error + PostMeta)
       = Inl (ZodError [\<lparr>path = [''author''], message = ''Author is required''\<rparr>,
                        \<lparr>path = [''id''], message = ''Required''\<rparr>,
                        \<lparr>path = [''slug''], message = ''Required''\<rparr>])"
proof -
  have "getPost exampleCompiler blogBrokenPost ''src/blog'' ''002-second''
     = Inr \<lparr>content = ''broken'', frontmatter = noAuthor\<rparr>"
    by (simp add: io_eval example_eval getFilename_eq fileExtension_def)
  moreover have "(parse metaSchema noAuthor :: unit error + PostMeta)
       = Inl (ZodError [\<lparr>path = [''author''], message = ''Author is required''\<rparr>,
                        \<lparr>path = [''id''], message = ''Required''\<rparr>,
                        \<lparr>path = [''slug''], message = ''Required''\<rparr>])"
    by (simp add: zod_eval noAuthor_def)
  ultimately show ?thesis by (rule conjI)
qed

section \<open>Listing the posts\<close>

subsection \<open>One failure fails the listing\<close>

lemma Promise_all_rejects:
  "Inl e \<in> set rs \<Longrightarrow> \<exists>e'. Promise_all rs = Inl e' \<and> Inl e' \<in> set rs"
proof (induction rs)
  case Nil
  then show ?case by simp
next
  case (Cons r rs)
  show ?case
  proof (cases r)
    case (Inl e0)
    then show ?thesis by simp
  next
    case (Inr a)
    with Cons.prems have "Inl e \<in> set rs" by auto
    then obtain e' where "Promise_all rs = Inl e'" "Inl e' \<in> set rs"
      using Cons.IH by blast
    with Inr show ?thesis by simp
  qed
qed

lemma getPosts_rejects:
  fixes compileMDX :: "('x, 'c) compiler"
  assumes dir: "(readdirSync fs blogDir :: 'x error + string list) = Inr files"
    and mem: "filename \<in> set files"
    and fails: "getPosts_file compileMDX fs blogDir filename = Inl e"
  shows "\<exists>e'. getPosts toNumber compileMDX fs blogDir = Inl e'
           \<and> (\<exists>f \<in> set files. getPosts_file compileMDX fs blogDir f = Inl e')"
proof -
  let ?g = "getPosts_file compileMDX fs blogDir"
  have "?g filename \<in> ?g ` set files" using mem by (rule imageI)
  then have "Inl e \<in> set (map ?g files)" unfolding fails set_map .
  from Promise_all_rejects[OF this]
  obtain e' where all: "Promise_all (map ?g files) = Inl e'"
    and e': "Inl e' \<in> set (map ?g files)"
    by (elim exE conjE)
  from e' obtain f where f: "f \<in> set files" "Inl e' = ?g f"
    unfolding set_map by (elim imageE)
  have "getPosts toNumber compileMDX fs blogDir = Inl e'"
    using dir all by (simp add: getPosts_def)
  with f show ?thesis by metis
qed

text \<open>
  Claim C8: \<open>getPosts\<close> is all or nothing. When the directory is read and the
  processing of one of its files fails, \<open>getPosts\<close> fails, with the error of a file that
  failed, and returns no posts; when that file is the only one to fail, or all that fail
  do so with the same error, the error is that one.
\<close>

theorem getPosts_all_or_nothing:
  fixes compileMDX :: "('x, 'c) compiler"
  assumes "(readdirSync fs blogDir :: 'x error + string list) = Inr files"
    and "filename \<in> set files"
    and "getPosts_file compileMDX fs blogDir filename = Inl e"
  shows "(\<exists>e'. getPosts toNumber compileMDX fs blogDir = Inl e'
            \<and> (\<exists>f \<in> set files. getPosts_file compileMDX fs blogDir f = Inl e'))
   \<and> ((\<forall>f \<in> set files. \<forall>e'. getPosts_file compileMDX fs blogDir f = Inl e' \<longrightarrow> e' = e)
        \<longrightarrow> getPosts toNumber compileMDX fs blogDir = Inl e)"
proof -
  from getPosts_rejects[OF assms, of toNumber]
  obtain e' f where res: "getPosts toNumber compileMDX fs blogDir = Inl e'"
    and f: "f \<in> set files" "getPosts_file compileMDX fs blogDir f = Inl e'"
    by (elim exE conjE bexE)
  have "getPosts toNumber compileMDX fs blogDir = Inl e"
    if "\<forall>f \<in> set files. \<forall>e'. getPosts_file compileMDX fs blogDir f = Inl e' \<longrightarrow> e' = e"
  proof -
    from that f have "e' = e" by blast
    with res show ?thesis by simp
  qed
  with res f show ?thesis by (intro conjI impI exI[of _ e'] bexI[of _ f]) simp_all
qed

theorem getPosts_all_or_nothing_witness:
  "(readdirSync blogBrokenPost ''src/blog'' :: unit error + string list)
     = Inr [''001.mdx'', ''002.mdx'']
   \<and> ''002.mdx'' \<in> set [''001.mdx'', ''002.mdx'']
   \<and> getPosts_file exampleCompiler blogBrokenPost ''src/blog'' ''001.mdx''
       = Inr \<lparr>title = ''Hello World'', date = ''2024-01-01'', description = ''d'',
              author = ''a'', github = None, post_id = ''001'', slug = ''001-hello-world''\<rparr>
   \<and> getPosts_file exampleCompiler blogBrokenPost ''src/blog'' ''002.mdx''
       = Inl (ZodError [\<lparr>path = [''author''], message = ''Author is required''\<rparr>])
   \<and> getPosts digitsToNumber exampleCompiler blogBrokenPost ''src/blog''
       = Inl (ZodError [\<lparr>path = [''author''], message = ''Author is required''\<rparr>])"
proof -
  have d: "(readdirSync blogBrokenPost ''src/blog'' :: unit error + string list)
     = Inr [''001.mdx'', ''002.mdx'']"
    by (simp add: readdirSync_def blogBrokenPost_def)
  have m: "''002.mdx'' \<in> set [''001.mdx'', ''002.mdx'']" by simp
  have ok: "getPosts_file exampleCompiler blogBrokenPost ''src/blog'' ''001.mdx''
       = Inr \<lparr>title = ''Hello World'', date = ''2024-01-01'', description = ''d'',
              author = ''a'', github = None, post_id = ''001'', slug = ''001-hello-world''\<rparr>"
    by (simp add: io_eval example_eval zod_eval string_eval)
  have bad: "getPosts_file exampleCompiler blogBrokenPost ''src/blog'' ''002.mdx''
       = Inl (ZodError [\<lparr>path = [''author''], message = ''Author is required''\<rparr>])"
    by (simp add: io_eval example_eval zod_eval string_eval)
  have "getPosts digitsToNumber exampleCompiler blogBrokenPost ''src/blog''
       = Inl (ZodError [\<lparr>path = [''author''], message = ''Author is required''\<rparr>])"
    using getPosts_all_or_nothing[OF d m bad, of digitsToNumber, THEN conjunct2] ok bad
    by simp
  with d m ok bad show ?thesis by (intro conjI)
qed

subsection \<open>The order of the listing\<close>

lemma set_insertSorted: "set (insertSorted cmp x ys) = insert x (set ys)"
  by (induction ys) auto

lemma set_sortArray: "set (sortArray cmp xs) = set xs"
  by (induction xs) (auto simp: set_insertSorted)

lemma js_ge_trans: "js_ge a b \<Longrightarrow> js_ge b c \<Longrightarrow> js_ge a c"
  by (cases a; cases b; cases c) auto

lemma js_gt0_minus: "a \<noteq> NaN \<Longrightarrow> b \<noteq> NaN \<Longrightarrow> js_gt0 (js_minus b a) \<Longrightarrow> js_ge b a"
  by (cases a; cases b) auto

lemma not_js_gt0_minus: "a \<noteq> NaN \<Longrightarrow> b \<noteq> NaN \<Longrightarrow> \<not> js_gt0 (js_minus b a) \<Longrightarrow> js_ge a b"
  by (cases a; cases b) auto

lemma sorted_insertSorted:
  assumes "sorted_wrt (descending toNumber) ys"
    and "toNumber (post_id x) \<noteq> NaN"
    and "\<forall>y \<in> set ys. toNumber (post_id y) \<noteq> NaN"
  shows "sorted_wrt (descending toNumber) (insertSorted (compareIds toNumber) x ys)"
  using assms
proof (induction ys)
  case Nil
  then show ?case by simp
next
  case (Cons y ys)
  show ?case
  proof (cases "js_gt0 (compareIds toNumber x y)")
    case True
    then have yx: "descending toNumber y x"
      using Cons.prems by (simp add: compareIds_def descending_def js_gt0_minus)
    have "sorted_wrt (descending toNumber) (insertSorted (compareIds toNumber) x ys)"
      using Cons by simp
    moreover have "\<forall>z \<in> set (insertSorted (compareIds toNumber) x ys). descending toNumber y z"
      using yx Cons.prems(1) by (simp add: set_insertSorted)
    ultimately show ?thesis using True by simp
  next
    case False
    then have xy: "descending toNumber x y"
      using Cons.prems by (simp add: compareIds_def descending_def not_js_gt0_minus)
    have "\<forall>z \<in> set ys. descending toNumber x z"
      using xy Cons.prems(1) js_ge_trans unfolding descending_def by fastforce
    then show ?thesis using False xy Cons.prems(1) by simp
  qed
qed

lemma sorted_sortArray:
  assumes "\<forall>y \<in> set xs. toNumber (post_id y) \<noteq> NaN"
  shows "sorted_wrt (descending toNumber) (sortArray (compareIds toNumber) xs)"
  using assms
  by (induction xs) (auto simp: sorted_insertSorted set_sortArray)

text \<open>
  Claim C4, as the module has it. The claim asks that the result of every successful
  call is in descending order of the numbers the ids coerce to. The comparison
  \<^verbatim>\<open>+b.id - +a.id\<close> orders nothing when an id does not coerce to a number, and the id
  schema accepts every string. What holds is: for every successful call in which the id
  of every returned post coerces to a number, each post of the result and every later one,
  adjacent ones in particular, are in descending order of those numbers.
\<close>

theorem getPosts_sorted:
  fixes compileMDX :: "('x, 'c) compiler"
  assumes "getPosts toNumber compileMDX fs blogDir = Inr posts"
    and "\<forall>p \<in> set posts. toNumber (post_id p) \<noteq> NaN"
  shows "sorted_wrt (descending toNumber) posts"
proof -
  from assms(1) obtain unsorted where
    posts: "posts = sortArray (compareIds toNumber) unsorted"
    by (auto simp: getPosts_def split: sum.splits)
  from assms(2) have "\<forall>p \<in> set unsorted. toNumber (post_id p) \<noteq> NaN"
    unfolding posts set_sortArray .
  then show ?thesis unfolding posts by (rule sorted_sortArray)
qed

theorem getPosts_sorted_witness:
  "getPosts digitsToNumber exampleCompiler blogTwoPosts ''src/blog''
     = Inr [\<lparr>title = ''Second'', date = ''2024-02-01'', description = ''d'', author = ''a'',
              github = Some ''ekqt'', post_id = ''002'', slug = ''002-second''\<rparr>,
            \<lparr>title = ''Hello World'', date = ''2024-01-01'', description = ''d'',
              author = ''a'', github = None, post_id = ''001'', slug = ''001-hello-world''\<rparr>]
   \<and> digitsToNumber ''002'' = Finite 2 \<and> digitsToNumber ''001'' = Finite 1
   \<and> js_ge (digitsToNumber ''002'') (digitsToNumber ''001'')"
proof -
  let ?posts = "[\<lparr>title = ''Second'', date = ''2024-02-01'', description = ''d'', author = ''a'',
              github = Some ''ekqt'', post_id = ''002'', slug = ''002-second''\<rparr>,
            \<lparr>title = ''Hello World'', date = ''2024-01-01'', description = ''d'',
              author = ''a'', github = None, post_id = ''001'', slug = ''001-hello-world''\<rparr>]"
  have r: "getPosts digitsToNumber exampleCompiler blogTwoPosts ''src/blog'' = Inr ?posts"
    by (simp add: io_eval example_eval zod_eval string_eval)
  have n2: "digitsToNumber ''002'' = Finite 2" by (simp add: digitsToNumber_def char_eval)
  have n1: "digitsToNumber ''001'' = Finite 1" by (simp add: digitsToNumber_def char_eval)
  have n: "\<forall>p \<in> set ?posts. digitsToNumber (post_id p) \<noteq> NaN"
    using n1 n2 by simp
  have "js_ge (digitsToNumber ''002'') (digitsToNumber ''001'')"
    using getPosts_sorted[OF r n] by (simp add: descending_def)
  with r n2 n1 show ?thesis by (intro conjI)
qed

text \<open>
  Claim C4 as stated fails on a directory that holds \<^verbatim>\<open>001.mdx\<close> and
  \<^verbatim>\<open>draft.mdx\<close>: the call succeeds with both posts, the id \<^verbatim>\<open>draft\<close> coerces to
  not-a-number, and the two posts are in descending order in neither arrangement.
\<close>

theorem getPosts_sorted_counterexample:
  "getPosts digitsToNumber exampleCompiler blogWithDraft ''src/blog''
     = Inr [\<lparr>title = ''Hello World'', date = ''2024-01-01'', description = ''d'',
              author = ''a'', github = None, post_id = ''001'', slug = ''001-hello-world''\<rparr>,
            \<lparr>title = ''Second'', date = ''2024-02-01'', description = ''d'', author = ''a'',
              github = Some ''ekqt'', post_id = ''draft'', slug = ''draft-second''\<rparr>]
   \<and> digitsToNumber ''001'' = Finite 1 \<and> digitsToNumber ''draft'' = NaN
   \<and> \<not> js_ge (digitsToNumber ''001'') (digitsToNumber ''draft'')
   \<and> \<not> js_ge (digitsToNumber ''draft'') (digitsToNumber ''001'')"
proof -
  have "getPosts digitsToNumber exampleCompiler blogWithDraft ''src/blog''
     = Inr [\<lparr>title = ''Hello World'', date = ''2024-01-01'', description = ''d'',
              author = ''a'', github = None, post_id = ''001'', slug = ''001-hello-world''\<rparr>,
            \<lparr>title = ''Second'', date = ''2024-02-01'', description = ''d'', author = ''a'',
              github = Some ''ekqt'', post_id = ''draft'', slug = ''draft-second''\<rparr>]"
    by (simp add: io_eval example_eval zod_eval string_eval)
  moreover have "digitsToNumber ''001'' = Finite 1" by (simp add: digitsToNumber_def char_eval)
  moreover have "digitsToNumber ''draft'' = NaN" by (simp add: digitsToNumber_def char_eval)
  ultimately show ?thesis by simp
qed

end
